theory Spec2Isabelle
  imports Complex_Main
begin

section \<open>Data model (src/types.ts)\<close>

text \<open>
  \<^verbatim>\<open>ClickableItem { id; title; image }\<close>. The fields \<open>id\<close> and \<open>image\<close> carry a prime
  because HOL already has constants of these names.
\<close>

record ClickableItem =
  id' :: string
  title :: string
  image' :: string

text \<open>
  \<^verbatim>\<open>HandData { cursor: { x; y }; isPinching }\<close>. The coordinates are JavaScript numbers that
  the program only hands on to the DOM query; no arithmetic is done on them.
\<close>

record Cursor =
  x :: real
  y :: real

record HandData =
  cursor :: Cursor
  isPinching :: bool

section \<open>The component state of App (src/App.tsx)\<close>

text \<open>
  One field per \<^verbatim>\<open>useState\<close>/\<^verbatim>\<open>useRef\<close> value of the component. The React state
  \<^verbatim>\<open>isPinching\<close> is named \<open>isPinchingState\<close>, since the sample's field has the name already.
  Two fields record effects outside React state: \<open>pendingFacts\<close> holds the topics of the
  \<^verbatim>\<open>getFunFact\<close> calls that have been issued and are not settled yet, in the order of
  issue, and \<open>console\<close> holds what \<^verbatim>\<open>console.error\<close> has printed.
  A state setter is modelled as an immediate update of the field, and every event is
  handled to completion before the next.
\<close>

record AppState =
  isAppReady :: bool
  handData :: "HandData option"
  isPinchingState :: bool
  wasPinchingRef :: bool
  hoveredItemId :: "string option"
  selectedItem :: "ClickableItem option"
  modalContent :: string
  isModalLoading :: bool
  pendingFacts :: "string list"
  console :: "string list"

definition INTERACTIVE_ITEMS :: "ClickableItem list" where
  "INTERACTIVE_ITEMS =
     [\<lparr>id' = ''earth'', title = ''Planet Earth'',
        image' = ''https://picsum.photos/seed/earth/400/600''\<rparr>,
      \<lparr>id' = ''saturn'', title = ''Saturn'',
        image' = ''https://picsum.photos/seed/saturn/400/600''\<rparr>,
      \<lparr>id' = ''galaxy'', title = ''A Distant Galaxy'',
        image' = ''https://picsum.photos/seed/galaxy/400/600''\<rparr>]"

definition initApp :: AppState where
  "initApp =
     \<lparr>isAppReady = False, handData = None, isPinchingState = False, wasPinchingRef = False,
      hoveredItemId = None, selectedItem = None, modalContent = '''', isModalLoading = False,
      pendingFacts = [], console = []\<rparr>"

text \<open>How a promise settles: \<^verbatim>\<open>getFunFact\<close> either returns a fact or rejects.\<close>

datatype 'a outcome = Fulfilled 'a | Rejected string

subsection \<open>onHandData\<close>

definition onHandData :: "HandData \<Rightarrow> AppState \<Rightarrow> AppState" where
  "onHandData data st = st\<lparr>handData := Some data, isPinchingState := isPinching data\<rparr>"

subsection \<open>handleItemClick\<close>

text \<open>
  The guard \<^verbatim>\<open>selectedItem?.id === item.id || isModalLoading\<close>: with no selected item the
  left operand is \<^verbatim>\<open>undefined\<close>, which no string equals.
\<close>

definition clickGuard :: "ClickableItem \<Rightarrow> AppState \<Rightarrow> bool" where
  "clickGuard item st =
     ((case selectedItem st of None \<Rightarrow> False | Some s \<Rightarrow> id' s = id' item)
      \<or> isModalLoading st)"

text \<open>
  The synchronous part of \<^verbatim>\<open>handleItemClick\<close>, up to the \<^verbatim>\<open>await\<close>: the three setters,
  then the call \<^verbatim>\<open>getFunFact(item.title)\<close>, which joins the pending calls.
\<close>

definition handleItemClick :: "ClickableItem \<Rightarrow> AppState \<Rightarrow> AppState" where
  "handleItemClick item st =
     (if clickGuard item st then st
      else
        let st1 = st\<lparr>selectedItem := Some item\<rparr>;
            st2 = st1\<lparr>isModalLoading := True\<rparr>;
            st3 = st2\<lparr>modalContent := ''''\<rparr>
        in st3\<lparr>pendingFacts := pendingFacts st3 @ [title item]\<rparr>)"

text \<open>
  The guard reads \<^verbatim>\<open>selectedItem\<close> and \<^verbatim>\<open>isModalLoading\<close> as the render that created the
  callback saw them (the dependencies of \<^verbatim>\<open>useCallback\<close>), and the setters write to the
  current state. \<open>handleItemClick item st\<close> is the call of the callback of the render of
  \<open>st\<close> itself. A call that reaches the callback of another render, as a pointer click
  does that arrives after the effect has opened an item and before the component has
  rendered again, is \<open>handleItemClickFrom rendered item st\<close>.
\<close>

definition handleItemClickFrom :: "AppState \<Rightarrow> ClickableItem \<Rightarrow> AppState \<Rightarrow> AppState" where
  "handleItemClickFrom rendered item st =
     (if clickGuard item rendered then st
      else
        let st1 = st\<lparr>selectedItem := Some item\<rparr>;
            st2 = st1\<lparr>isModalLoading := True\<rparr>;
            st3 = st2\<lparr>modalContent := ''''\<rparr>
        in st3\<lparr>pendingFacts := pendingFacts st3 @ [title item]\<rparr>)"

text \<open>
  The rest of \<^verbatim>\<open>handleItemClick\<close>, run when the awaited call settles: the \<^verbatim>\<open>try\<close> branch
  on a fact, the \<^verbatim>\<open>catch\<close> branch on a rejection, then \<^verbatim>\<open>finally\<close>. The second component
  is how the promise of \<^verbatim>\<open>handleItemClick\<close> itself settles.
\<close>

definition handleItemClickResume :: "string outcome \<Rightarrow> AppState \<Rightarrow> AppState \<times> unit outcome" where
  "handleItemClickResume r st =
     (let st1 = (case r of
                   Fulfilled fact' \<Rightarrow> st\<lparr>modalContent := fact'\<rparr>
                 | Rejected err \<Rightarrow>
                     (st\<lparr>console := console st @ [err]\<rparr>)
                       \<lparr>modalContent := ''Could not retrieve information at this time.''\<rparr>)
      in (st1\<lparr>isModalLoading := False\<rparr>, Fulfilled ()))"

subsection \<open>closeModal\<close>

definition closeModal :: "AppState \<Rightarrow> AppState" where
  "closeModal st = (st\<lparr>selectedItem := None\<rparr>)\<lparr>modalContent := ''''\<rparr>"

subsection \<open>The gesture effect\<close>

text \<open>
  The DOM query of the effect,
  \<^verbatim>\<open>document.elementFromPoint(x, y)?.closest('[data-clickable-id]')?.getAttribute(...) ?? null\<close>,
  belongs to the browser; it is a parameter of the model, from the coordinates to the
  attribute value, if an element with the attribute is under the point.
\<close>

type_synonym hitTest = "real \<Rightarrow> real \<Rightarrow> string option"

text \<open>
  The body of the effect. The second component is the item \<^verbatim>\<open>handleItemClick\<close> was called
  with, if it was called. The test \<^verbatim>\<open>justPinched && cardId\<close> is false for \<^verbatim>\<open>null\<close> and for
  the empty string.
\<close>

definition gestureEffect :: "hitTest \<Rightarrow> AppState \<Rightarrow> AppState \<times> ClickableItem option" where
  "gestureEffect elementIdAt st =
     (case handData st of
        None \<Rightarrow> (st, None)
      | Some data \<Rightarrow>
          let cardId = elementIdAt (x (cursor data)) (y (cursor data));
              st1 = st\<lparr>hoveredItemId := cardId\<rparr>;
              justPinched = (isPinchingState st \<and> \<not> wasPinchingRef st);
              r = (case cardId of
                     None \<Rightarrow> (st1, None)
                   | Some cid \<Rightarrow>
                       if justPinched \<and> cid \<noteq> '''' then
                         (case find (\<lambda>item. id' item = cid) INTERACTIVE_ITEMS of
                            Some itemToClick \<Rightarrow> (handleItemClick itemToClick st1, Some itemToClick)
                          | None \<Rightarrow> (st1, None))
                       else (st1, None))
          in ((fst r)\<lparr>wasPinchingRef := isPinchingState st\<rparr>, snd r))"

text \<open>One frame of the tracker: \<^verbatim>\<open>onHandData\<close>, then the effect of the render it causes.\<close>

definition processFrame :: "hitTest \<Rightarrow> HandData \<Rightarrow> AppState \<Rightarrow> AppState \<times> ClickableItem option" where
  "processFrame elementIdAt data st = gestureEffect elementIdAt (onHandData data st)"

subsection \<open>Events\<close>

text \<open>
  What can happen to the component: a tracker frame, a run of the effect after a render
  that changed \<^verbatim>\<open>handleItemClick\<close>, a pointer click on a card, the close button, and the
  settling of the pending call at a position. Settling a call that was never issued
  cannot happen; the model leaves the state as it is. An event is handled on the state
  the event before it left, that is, by the callbacks of the render that followed it; a
  click that reaches the callback of an earlier render is not among the events, it is
  \<open>handleItemClickFrom\<close>.
\<close>

datatype event =
    Frame HandData hitTest
  | Rerun hitTest
  | Click ClickableItem
  | Close
  | Settle nat "string outcome"

definition settle :: "nat \<Rightarrow> string outcome \<Rightarrow> AppState \<Rightarrow> AppState" where
  "settle i r st =
     (if i < length (pendingFacts st)
      then fst (handleItemClickResume r
                  (st\<lparr>pendingFacts := take i (pendingFacts st) @ drop (Suc i) (pendingFacts st)\<rparr>))
      else st)"

fun step :: "event \<Rightarrow> AppState \<Rightarrow> AppState \<times> ClickableItem option" where
  "step (Frame data h) st = processFrame h data st"
| "step (Rerun h) st = gestureEffect h st"
| "step (Click item) st = (handleItemClick item st, None)"
| "step Close st = (closeModal st, None)"
| "step (Settle i r) st = (settle i r st, None)"

fun run :: "event list \<Rightarrow> AppState \<Rightarrow> AppState" where
  "run [] st = st"
| "run (e # es) st = run es (fst (step e st))"

text \<open>The select events of a run, one entry per event.\<close>

fun selectTrace :: "event list \<Rightarrow> AppState \<Rightarrow> ClickableItem option list" where
  "selectTrace [] st = []"
| "selectTrace (e # es) st = snd (step e st) # selectTrace es (fst (step e st))"

fun isSettle :: "event \<Rightarrow> bool" where
  "isSettle (Settle i r) = True"
| "isSettle e = False"

section \<open>Vocabulary of the properties\<close>

text \<open>The catalog item a hit-test result resolves to, if any.\<close>

definition catalogItem :: "string option \<Rightarrow> ClickableItem option" where
  "catalogItem cardId =
     (case cardId of None \<Rightarrow> None
      | Some cid \<Rightarrow> find (\<lambda>item. id' item = cid) INTERACTIVE_ITEMS)"

text \<open>
  A gesture stream is a list of samples, each with the hit test the page offers when the
  sample is handled.
\<close>

definition frameEvents :: "(HandData \<times> hitTest) list \<Rightarrow> event list" where
  "frameEvents fs = map (\<lambda>(d, h). Frame d h) fs"

definition pinchFlags :: "(HandData \<times> hitTest) list \<Rightarrow> bool list" where
  "pinchFlags fs = map (\<lambda>(d, h). isPinching d) fs"

definition cardIdOf :: "HandData \<times> hitTest \<Rightarrow> string option" where
  "cardIdOf f = (snd f) (x (cursor (fst f))) (y (cursor (fst f)))"

text \<open>
  Position \<open>i\<close> is the first frame of a maximal run of pinching frames: the flag is set
  there and it is the first frame or the flag before it is not set.
\<close>

definition runStart :: "bool list \<Rightarrow> nat \<Rightarrow> bool" where
  "runStart ps i = (i < length ps \<and> ps ! i \<and> (i = 0 \<or> \<not> ps ! (i - 1)))"

text \<open>The number of maximal runs of set flags: a set flag opens a run, the rest of it is skipped.\<close>

function countRuns :: "bool list \<Rightarrow> nat" where
  "countRuns [] = 0"
| "countRuns (False # ps) = countRuns ps"
| "countRuns (True # ps) = Suc (countRuns (dropWhile (\<lambda>p. p) ps))"
  by pat_completeness auto
termination
  by (relation "measure length") (auto simp: le_imp_less_Suc length_dropWhile_le)

text \<open>The edge detector on its own: the flag is set and the one before (\<open>prev\<close> at first) is not.\<close>

fun risingEdges :: "bool \<Rightarrow> bool list \<Rightarrow> bool list" where
  "risingEdges prev [] = []"
| "risingEdges prev (p # ps) = (p \<and> \<not> prev) # risingEdges p ps"

definition selectCount :: "event list \<Rightarrow> AppState \<Rightarrow> nat" where
  "selectCount es st = length (filter (\<lambda>s. s \<noteq> None) (selectTrace es st))"

subsection \<open>Concrete inputs\<close>

definition earth :: ClickableItem where
  "earth = INTERACTIVE_ITEMS ! 0"

definition saturn :: ClickableItem where
  "saturn = INTERACTIVE_ITEMS ! 1"

definition pinchSample :: "bool \<Rightarrow> HandData" where
  "pinchSample b = \<lparr>cursor = \<lparr>x = 640, y = 360\<rparr>, isPinching = b\<rparr>"

definition overCard :: "string \<Rightarrow> hitTest" where
  "overCard cid a b = Some cid"

definition overNothing :: hitTest where
  "overNothing a b = None"

text \<open>The state after a first pinching sample over the Earth card: Earth is being opened.\<close>

definition earthPinched :: AppState where
  "earthPinched = fst (processFrame (overCard ''earth'') (pinchSample True) initApp)"

section \<open>Facts about the operations\<close>

subsection \<open>handleItemClick and the settling of a call\<close>

lemma handleItemClick_noop: "clickGuard item st \<Longrightarrow> handleItemClick item st = st"
  by (simp add: handleItemClick_def)

lemma handleItemClick_open:
  "\<not> clickGuard item st \<Longrightarrow>
   handleItemClick item st =
     st\<lparr>selectedItem := Some item, isModalLoading := True, modalContent := '''',
        pendingFacts := pendingFacts st @ [title item]\<rparr>"
  by (simp add: handleItemClick_def Let_def)

lemma handleItemClick_was [simp]: "wasPinchingRef (handleItemClick item st) = wasPinchingRef st"
  by (simp add: handleItemClick_def Let_def)

lemma handleItemClick_pinch [simp]: "isPinchingState (handleItemClick item st) = isPinchingState st"
  by (simp add: handleItemClick_def Let_def)

lemma handleItemClick_hover [simp]: "hoveredItemId (handleItemClick item st) = hoveredItemId st"
  by (simp add: handleItemClick_def Let_def)

lemma handleItemClick_handData [simp]: "handData (handleItemClick item st) = handData st"
  by (simp add: handleItemClick_def Let_def)

lemma handleItemClickFrom_self: "handleItemClickFrom st item st = handleItemClick item st"
  by (simp add: handleItemClickFrom_def handleItemClick_def)

lemma handleItemClickFrom_cases:
  "handleItemClickFrom rd item st =
     (if clickGuard item rd then st
      else st\<lparr>selectedItem := Some item, isModalLoading := True, modalContent := '''',
             pendingFacts := pendingFacts st @ [title item]\<rparr>)"
  by (simp add: handleItemClickFrom_def Let_def)

lemma earthPinched_eq:
  "earthPinched =
     initApp\<lparr>handData := Some (pinchSample True), isPinchingState := True,
       hoveredItemId := Some ''earth'', selectedItem := Some earth, isModalLoading := True,
       modalContent := '''', pendingFacts := [''Planet Earth''], wasPinchingRef := True\<rparr>"
  by (simp add: earthPinched_def processFrame_def onHandData_def gestureEffect_def Let_def
      overCard_def pinchSample_def INTERACTIVE_ITEMS_def earth_def handleItemClick_def
      clickGuard_def initApp_def)

lemma settle_fulfilled:
  "i < length (pendingFacts st) \<Longrightarrow>
   settle i (Fulfilled r) st =
     st\<lparr>pendingFacts := take i (pendingFacts st) @ drop (Suc i) (pendingFacts st),
        modalContent := r, isModalLoading := False\<rparr>"
  by (simp add: settle_def handleItemClickResume_def)

lemma settle_rejected:
  "i < length (pendingFacts st) \<Longrightarrow>
   settle i (Rejected err) st =
     st\<lparr>pendingFacts := take i (pendingFacts st) @ drop (Suc i) (pendingFacts st),
        console := console st @ [err],
        modalContent := ''Could not retrieve information at this time.'',
        isModalLoading := False\<rparr>"
  by (simp add: settle_def handleItemClickResume_def)

lemma settle_loading:
  "i < length (pendingFacts st) \<Longrightarrow>
   \<not> isModalLoading (settle i r st) \<and> selectedItem (settle i r st) = selectedItem st"
  by (cases r) (simp_all add: settle_def handleItemClickResume_def)

lemma open_then_close:
  assumes "\<not> clickGuard item st"
  shows "isModalLoading (closeModal (handleItemClick item st))"
    and "selectedItem (closeModal (handleItemClick item st)) = None"
    and "modalContent (closeModal (handleItemClick item st)) = ''''"
    and "pendingFacts (closeModal (handleItemClick item st)) = pendingFacts st @ [title item]"
  using assms by (simp_all add: handleItemClick_open closeModal_def)

subsection \<open>The gesture effect\<close>

lemma find_empty_id: "find (\<lambda>item. id' item = '''') INTERACTIVE_ITEMS = None"
  by (simp add: INTERACTIVE_ITEMS_def)

lemma gestureEffect_select:
  "handData st = Some d \<Longrightarrow>
   snd (gestureEffect h st) =
     (if isPinchingState st \<and> \<not> wasPinchingRef st
      then catalogItem (h (x (cursor d)) (y (cursor d))) else None)"
  by (auto simp: gestureEffect_def Let_def catalogItem_def find_empty_id split: option.splits)

lemma gestureEffect_was:
  "handData st = Some d \<Longrightarrow> wasPinchingRef (fst (gestureEffect h st)) = isPinchingState st"
  by (simp add: gestureEffect_def Let_def)

lemma processFrame_select:
  "snd (processFrame h d st) =
     (if isPinching d \<and> \<not> wasPinchingRef st
      then catalogItem (h (x (cursor d)) (y (cursor d))) else None)"
  by (simp add: processFrame_def gestureEffect_select [where d = d] onHandData_def)

lemma processFrame_was: "wasPinchingRef (fst (processFrame h d st)) = isPinching d"
  by (simp add: processFrame_def gestureEffect_was [where d = d] onHandData_def)

text \<open>
  A run of the effect that no new sample caused finds the ref equal to the pinch state,
  and calls nothing.
\<close>

lemma gestureEffect_rerun_no_select:
  "wasPinchingRef st = isPinchingState st \<Longrightarrow> snd (gestureEffect h st) = None"
  by (cases "handData st") (simp_all add: gestureEffect_select, simp add: gestureEffect_def)

lemma gestureEffect_loading:
  "isModalLoading st \<Longrightarrow>
   isModalLoading (fst (gestureEffect h st)) \<and>
   pendingFacts (fst (gestureEffect h st)) = pendingFacts st \<and>
   selectedItem (fst (gestureEffect h st)) = selectedItem st \<and>
   modalContent (fst (gestureEffect h st)) = modalContent st"
  by (simp add: gestureEffect_def Let_def handleItemClick_noop clickGuard_def split: option.splits)

subsection \<open>Runs of events\<close>

lemma run_append: "run (es @ es') st = run es' (run es st)"
  by (induction es arbitrary: st) auto

text \<open>While a call is pending, no event but its settling ends the loading or opens an item.\<close>

lemma step_loading:
  "isModalLoading st \<Longrightarrow> \<not> isSettle e \<Longrightarrow>
   isModalLoading (fst (step e st)) \<and>
   pendingFacts (fst (step e st)) = pendingFacts st \<and>
   (selectedItem st = None \<and> modalContent st = '''' \<longrightarrow>
      selectedItem (fst (step e st)) = None \<and> modalContent (fst (step e st)) = '''')"
proof (cases e)
  case (Frame d h)
  assume "isModalLoading st"
  then have "isModalLoading (onHandData d st)" by (simp add: onHandData_def)
  from gestureEffect_loading [OF this, of h] Frame show ?thesis
    by (simp add: processFrame_def onHandData_def)
next
  case (Rerun h)
  assume "isModalLoading st"
  from gestureEffect_loading [OF this, of h] Rerun show ?thesis by simp
next
  case (Click item)
  assume "isModalLoading st"
  then show ?thesis using Click by (simp add: handleItemClick_noop clickGuard_def)
next
  case Close
  assume "isModalLoading st"
  then show ?thesis using Close by (simp add: closeModal_def)
next
  case (Settle i r)
  assume "\<not> isSettle e"
  with Settle show ?thesis by simp
qed

lemma run_loading:
  "isModalLoading st \<Longrightarrow> \<forall>e\<in>set es. \<not> isSettle e \<Longrightarrow>
   isModalLoading (run es st) \<and>
   pendingFacts (run es st) = pendingFacts st \<and>
   (selectedItem st = None \<and> modalContent st = '''' \<longrightarrow>
      selectedItem (run es st) = None \<and> modalContent (run es st) = '''')"
proof (induction es arbitrary: st)
  case Nil
  then show ?case by simp
next
  case (Cons e es)
  from Cons.prems have e: "\<not> isSettle e" and es: "\<forall>e\<in>set es. \<not> isSettle e" by simp_all
  note s = step_loading [OF Cons.prems(1) e]
  from s have l: "isModalLoading (fst (step e st))" by simp
  from Cons.IH [OF l es] s show ?case by simp
qed

subsection \<open>The select events of a gesture stream\<close>

lemma selectTrace_frames:
  "selectTrace (frameEvents fs) st =
     map (\<lambda>(e, f). if e then catalogItem (cardIdOf f) else None)
       (zip (risingEdges (wasPinchingRef st) (pinchFlags fs)) fs)"
proof (induction fs arbitrary: st)
  case Nil
  show ?case by (simp add: frameEvents_def pinchFlags_def)
next
  case (Cons f fs)
  obtain d h where f: "f = (d, h)" by (cases f)
  have "selectTrace (frameEvents (f # fs)) st =
          snd (processFrame h d st) # selectTrace (frameEvents fs) (fst (processFrame h d st))"
    by (simp add: frameEvents_def f)
  then show ?case
    by (simp add: Cons.IH processFrame_select processFrame_was pinchFlags_def cardIdOf_def f)
qed

lemma length_risingEdges [simp]: "length (risingEdges prev ps) = length ps"
  by (induction ps arbitrary: prev) auto

lemma risingEdges_nth:
  "i < length ps \<Longrightarrow>
   risingEdges prev ps ! i = (ps ! i \<and> \<not> (if i = 0 then prev else ps ! (i - 1)))"
proof (induction ps arbitrary: prev i)
  case Nil
  then show ?case by simp
next
  case (Cons p ps)
  show ?case
  proof (cases i)
    case 0
    then show ?thesis by simp
  next
    case (Suc j)
    with Cons.prems have "j < length ps" by simp
    from Cons.IH [OF this, of p] Suc show ?thesis
      by (cases j) auto
  qed
qed

lemma risingEdges_runStart:
  "i < length ps \<Longrightarrow> risingEdges False ps ! i = runStart ps i"
  by (auto simp: risingEdges_nth runStart_def)

lemma count_risingEdges:
  "length (filter (\<lambda>e. e) (risingEdges True ps)) = countRuns (dropWhile (\<lambda>p. p) ps)
   \<and> length (filter (\<lambda>e. e) (risingEdges False ps)) = countRuns ps"
proof (induction ps)
  case Nil
  show ?case by simp
next
  case (Cons p ps)
  then show ?case by (cases p) auto
qed

lemma card_runStart: "card {i. runStart ps i} = countRuns ps"
proof -
  have "{i. runStart ps i} = {i. i < length (risingEdges False ps) \<and> risingEdges False ps ! i}"
    using risingEdges_runStart [of _ ps] by (auto simp: runStart_def)
  then have "card {i. runStart ps i} = length (filter (\<lambda>e. e) (risingEdges False ps))"
    by (simp add: length_filter_conv_card)
  then show ?thesis by (simp add: count_risingEdges)
qed

section \<open>Pinch selection\<close>

text \<open>
  C1. From a state whose \<open>wasPinchingRef\<close> is false, a gesture stream calls
  \<open>handleItemClick\<close> on frame \<open>i\<close> exactly when \<open>i\<close> is the first frame of a maximal run of
  pinching frames and the hit test of that frame resolves to a catalog item; the item
  is the one the hit test names. So a select is never emitted on a falling edge or
  while a pinch is held, a first sample that pinches counts as a rising edge, the
  frames that start a run are as many as the maximal runs, the selects are at most
  that many, and exactly that many when every rising edge hits a catalog item.
\<close>

theorem select_iff_rising_edge_and_hit:
  assumes "\<not> wasPinchingRef st"
  shows "length (selectTrace (frameEvents fs) st) = length fs
     \<and> (\<forall>i<length fs. selectTrace (frameEvents fs) st ! i =
           (if runStart (pinchFlags fs) i then catalogItem (cardIdOf (fs ! i)) else None))
     \<and> card {i. runStart (pinchFlags fs) i} = countRuns (pinchFlags fs)
     \<and> selectCount (frameEvents fs) st \<le> countRuns (pinchFlags fs)
     \<and> ((\<forall>i<length fs. runStart (pinchFlags fs) i \<longrightarrow> catalogItem (cardIdOf (fs ! i)) \<noteq> None)
          \<longrightarrow> selectCount (frameEvents fs) st = countRuns (pinchFlags fs))"
proof -
  let ?ps = "pinchFlags fs"
  let ?tr = "selectTrace (frameEvents fs) st"
  have lps: "length ?ps = length fs" by (simp add: pinchFlags_def)
  have tr: "?tr = map (\<lambda>(e, f). if e then catalogItem (cardIdOf f) else None)
                    (zip (risingEdges False ?ps) fs)"
    using assms by (simp add: selectTrace_frames)
  have len: "length ?tr = length fs" by (simp add: tr lps)
  have nth: "?tr ! i = (if runStart ?ps i then catalogItem (cardIdOf (fs ! i)) else None)"
    if "i < length fs" for i
    using that by (simp add: tr lps risingEdges_runStart)
  have starts: "{i. runStart ?ps i} \<subseteq> {..<length fs}"
    by (auto simp: runStart_def lps)
  then have fin: "finite {i. runStart ?ps i}" by (rule finite_subset) simp
  have cnt: "selectCount (frameEvents fs) st = card {i. i < length fs \<and> ?tr ! i \<noteq> None}"
    by (simp add: selectCount_def length_filter_conv_card len)
  have sub: "{i. i < length fs \<and> ?tr ! i \<noteq> None} \<subseteq> {i. runStart ?ps i}"
    using nth by (auto split: if_splits)
  have le: "selectCount (frameEvents fs) st \<le> countRuns ?ps"
    using card_mono [OF fin sub] by (simp add: cnt card_runStart)
  have eq: "selectCount (frameEvents fs) st = countRuns ?ps"
    if h: "\<forall>i<length fs. runStart ?ps i \<longrightarrow> catalogItem (cardIdOf (fs ! i)) \<noteq> None"
  proof -
    have "{i. i < length fs \<and> ?tr ! i \<noteq> None} = {i. runStart ?ps i}"
      using nth h starts by auto
    then show ?thesis by (simp add: cnt card_runStart)
  qed
  from len nth le eq show ?thesis by (simp add: card_runStart)
qed

text \<open>
  Six frames with three runs of pinching; the second run starts off every card. The
  selects are on the first and the last frame.
\<close>

theorem select_iff_rising_edge_and_hit_witness:
  "\<not> wasPinchingRef initApp
   \<and> selectTrace (frameEvents [(pinchSample True, overCard ''earth''),
        (pinchSample True, overCard ''earth''), (pinchSample False, overCard ''earth''),
        (pinchSample True, overNothing), (pinchSample False, overNothing),
        (pinchSample True, overCard ''saturn'')]) initApp
      = [Some earth, None, None, None, None, Some saturn]
   \<and> selectCount (frameEvents [(pinchSample True, overCard ''earth''),
        (pinchSample True, overCard ''earth''), (pinchSample False, overCard ''earth''),
        (pinchSample True, overNothing), (pinchSample False, overNothing),
        (pinchSample True, overCard ''saturn'')]) initApp \<le> 3"
proof -
  have h: "\<not> wasPinchingRef initApp" by (simp add: initApp_def)
  have t: "selectTrace (frameEvents [(pinchSample True, overCard ''earth''),
        (pinchSample True, overCard ''earth''), (pinchSample False, overCard ''earth''),
        (pinchSample True, overNothing), (pinchSample False, overNothing),
        (pinchSample True, overCard ''saturn'')]) initApp
      = [Some earth, None, None, None, None, Some saturn]"
    by (simp add: selectTrace_frames h pinchFlags_def pinchSample_def cardIdOf_def catalogItem_def
        overCard_def overNothing_def INTERACTIVE_ITEMS_def earth_def saturn_def)
  from select_iff_rising_edge_and_hit [OF h, of "[(pinchSample True, overCard ''earth''),
        (pinchSample True, overCard ''earth''), (pinchSample False, overCard ''earth''),
        (pinchSample True, overNothing), (pinchSample False, overNothing),
        (pinchSample True, overCard ''saturn'')]"]
  have "selectCount (frameEvents [(pinchSample True, overCard ''earth''),
        (pinchSample True, overCard ''earth''), (pinchSample False, overCard ''earth''),
        (pinchSample True, overNothing), (pinchSample False, overNothing),
        (pinchSample True, overCard ''saturn'')]) initApp \<le> 3"
    by (simp add: pinchFlags_def pinchSample_def)
  with h t show ?thesis by simp
qed

text \<open>
  One pinching sample with no card under the cursor: one maximal run, and no select.
\<close>

theorem select_once_per_run_counterexample:
  "\<not> wasPinchingRef initApp
   \<and> selectCount (frameEvents [(pinchSample True, overNothing)]) initApp = 0
   \<and> countRuns (pinchFlags [(pinchSample True, overNothing)]) = 1
   \<and> selectCount (frameEvents [(pinchSample True, overNothing)]) initApp
       \<noteq> countRuns (pinchFlags [(pinchSample True, overNothing)])"
  by (simp add: selectCount_def selectTrace_frames initApp_def pinchFlags_def pinchSample_def
      cardIdOf_def catalogItem_def overNothing_def)

text \<open>
  C7. When the hit test of a frame returns nothing, or an id that no catalog item has,
  the frame calls \<open>handleItemClick\<close> for no item, whatever the pinch flags are, and the
  selected item, the modal content, the loading flag and the pending calls stay as
  they were.
\<close>

theorem no_select_without_catalog_hit:
  assumes "h (x (cursor d)) (y (cursor d)) = None
     \<or> (\<exists>cid. h (x (cursor d)) (y (cursor d)) = Some cid \<and> cid \<notin> set (map id' INTERACTIVE_ITEMS))"
  shows "snd (processFrame h d st) = None
     \<and> selectedItem (fst (processFrame h d st)) = selectedItem st
     \<and> modalContent (fst (processFrame h d st)) = modalContent st
     \<and> isModalLoading (fst (processFrame h d st)) = isModalLoading st
     \<and> pendingFacts (fst (processFrame h d st)) = pendingFacts st"
  using assms
proof
  assume "h (x (cursor d)) (y (cursor d)) = None"
  then show ?thesis
    by (simp add: processFrame_def onHandData_def gestureEffect_def Let_def)
next
  assume "\<exists>cid. h (x (cursor d)) (y (cursor d)) = Some cid \<and> cid \<notin> set (map id' INTERACTIVE_ITEMS)"
  then obtain cid where c: "h (x (cursor d)) (y (cursor d)) = Some cid"
    and n: "cid \<notin> set (map id' INTERACTIVE_ITEMS)" by blast
  from n have f: "find (\<lambda>item. id' item = cid) INTERACTIVE_ITEMS = None"
    by (auto simp: find_None_iff)
  show ?thesis
    by (simp add: processFrame_def onHandData_def gestureEffect_def Let_def c f)
qed

text \<open>A rising edge over an element whose id, \<open>pluto\<close>, is not in the catalog.\<close>

theorem no_select_without_catalog_hit_witness:
  "overCard ''pluto'' (x (cursor (pinchSample True))) (y (cursor (pinchSample True))) = Some ''pluto''
   \<and> ''pluto'' \<notin> set (map id' INTERACTIVE_ITEMS)
   \<and> \<not> wasPinchingRef initApp \<and> isPinching (pinchSample True)
   \<and> snd (processFrame (overCard ''pluto'') (pinchSample True) initApp) = None"
proof -
  have c: "overCard ''pluto'' (x (cursor (pinchSample True))) (y (cursor (pinchSample True)))
             = Some ''pluto''"
    by (simp add: overCard_def)
  have n: "''pluto'' \<notin> set (map id' INTERACTIVE_ITEMS)"
    by (simp add: INTERACTIVE_ITEMS_def)
  have "snd (processFrame (overCard ''pluto'') (pinchSample True) initApp) = None"
    using no_select_without_catalog_hit [of "overCard ''pluto''" "pinchSample True" initApp] c n
    by blast
  with c n show ?thesis by (simp add: initApp_def pinchSample_def)
qed

section \<open>Hover\<close>

text \<open>
  C6. Every frame sets \<open>hoveredItemId\<close> to the result of the hit test at the sample's
  cursor, an id or nothing alike; so does every run of the effect on the latest sample.
\<close>

theorem hover_is_hit_test:
  "hoveredItemId (fst (processFrame h d st)) = h (x (cursor d)) (y (cursor d))
   \<and> (handData st = Some d \<longrightarrow>
        hoveredItemId (fst (gestureEffect h st)) = h (x (cursor d)) (y (cursor d)))"
  by (simp add: processFrame_def onHandData_def gestureEffect_def Let_def split: option.splits)

text \<open>The cursor over the galaxy card, then over no card: the hover is set, then cleared.\<close>

theorem hover_is_hit_test_witness:
  "handData (onHandData (pinchSample False) initApp) = Some (pinchSample False)
   \<and> hoveredItemId (fst (gestureEffect (overCard ''galaxy'')
        (onHandData (pinchSample False) initApp))) = Some ''galaxy''
   \<and> hoveredItemId (fst (processFrame overNothing (pinchSample True)
        (fst (processFrame (overCard ''galaxy'') (pinchSample False) initApp)))) = None"
  using hover_is_hit_test [of "overCard ''galaxy''" "pinchSample False"
      "onHandData (pinchSample False) initApp"]
    hover_is_hit_test [of overNothing "pinchSample True"
      "fst (processFrame (overCard ''galaxy'') (pinchSample False) initApp)"]
  by (simp add: onHandData_def overCard_def overNothing_def)

section \<open>Opening an item\<close>



text \<open>
  C8. When the guard lets \<open>handleItemClick\<close> through, the state it leaves has the item
  selected, \<open>isModalLoading\<close> set and \<open>modalContent\<close> empty, and the call of \<open>getFunFact\<close>
  with the item's title is the last of the pending calls: content and loading flag are
  reset on every opening of a new item.
\<close>

theorem open_resets_detail:
  assumes "\<not> clickGuard item st"
  shows "selectedItem (handleItemClick item st) = Some item
     \<and> isModalLoading (handleItemClick item st)
     \<and> modalContent (handleItemClick item st) = ''''
     \<and> pendingFacts (handleItemClick item st) = pendingFacts st @ [title item]"
  using assms by (simp add: handleItemClick_def Let_def)

text \<open>Earth is open with its fact shown; opening Saturn clears the content.\<close>

theorem open_resets_detail_witness:
  "\<not> clickGuard saturn (settle 0 (Fulfilled ''blue'') (handleItemClick earth initApp))
   \<and> modalContent (settle 0 (Fulfilled ''blue'') (handleItemClick earth initApp)) = ''blue''
   \<and> selectedItem (handleItemClick saturn (settle 0 (Fulfilled ''blue'') (handleItemClick earth initApp)))
       = Some saturn
   \<and> isModalLoading (handleItemClick saturn (settle 0 (Fulfilled ''blue'') (handleItemClick earth initApp)))
   \<and> modalContent (handleItemClick saturn (settle 0 (Fulfilled ''blue'') (handleItemClick earth initApp)))
       = ''''
   \<and> pendingFacts (handleItemClick saturn (settle 0 (Fulfilled ''blue'') (handleItemClick earth initApp)))
       = [''Saturn'']"
proof -
  have g: "\<not> clickGuard saturn (settle 0 (Fulfilled ''blue'') (handleItemClick earth initApp))"
    by (simp add: settle_def handleItemClickResume_def handleItemClick_def clickGuard_def
        initApp_def Let_def earth_def saturn_def INTERACTIVE_ITEMS_def)
  have m: "modalContent (settle 0 (Fulfilled ''blue'') (handleItemClick earth initApp)) = ''blue''"
    by (simp add: settle_def handleItemClickResume_def handleItemClick_def clickGuard_def
        initApp_def Let_def)
  have p: "pendingFacts (settle 0 (Fulfilled ''blue'') (handleItemClick earth initApp)) = []"
    by (simp add: settle_def handleItemClickResume_def handleItemClick_def clickGuard_def
        initApp_def Let_def)
  have t: "title saturn = ''Saturn''" by (simp add: saturn_def INTERACTIVE_ITEMS_def)
  from open_resets_detail [OF g] g m p t show ?thesis by simp
qed

section \<open>The fact arrives or fails\<close>

text \<open>
  C4. When \<open>getFunFact\<close> rejects, the rest of \<open>handleItemClick\<close> sets \<open>modalContent\<close> to
  \<open>Could not retrieve information at this time.\<close> and clears \<open>isModalLoading\<close>; the
  selected item stays, and the promise of \<open>handleItemClick\<close> is fulfilled, not rejected.
  In particular, after an item is opened and its call rejects, the item is selected
  with the fallback text, nothing is loading, and any other item can be opened.
\<close>

theorem fetch_rejected_fallback:
  "modalContent (fst (handleItemClickResume (Rejected err) s))
     = ''Could not retrieve information at this time.''
   \<and> \<not> isModalLoading (fst (handleItemClickResume (Rejected err) s))
   \<and> selectedItem (fst (handleItemClickResume (Rejected err) s)) = selectedItem s
   \<and> snd (handleItemClickResume (Rejected err) s) = Fulfilled ()
   \<and> (\<not> clickGuard item st \<longrightarrow>
        selectedItem (run [Click item, Settle (length (pendingFacts st)) (Rejected err)] st)
          = Some item
        \<and> modalContent (run [Click item, Settle (length (pendingFacts st)) (Rejected err)] st)
          = ''Could not retrieve information at this time.''
        \<and> \<not> isModalLoading (run [Click item, Settle (length (pendingFacts st)) (Rejected err)] st)
        \<and> (\<forall>j. id' j \<noteq> id' item \<longrightarrow>
              \<not> clickGuard j (run [Click item, Settle (length (pendingFacts st)) (Rejected err)] st)))"
proof -
  have a: "modalContent (fst (handleItemClickResume (Rejected err) s))
             = ''Could not retrieve information at this time.''
           \<and> \<not> isModalLoading (fst (handleItemClickResume (Rejected err) s))
           \<and> selectedItem (fst (handleItemClickResume (Rejected err) s)) = selectedItem s
           \<and> snd (handleItemClickResume (Rejected err) s) = Fulfilled ()"
    by (simp add: handleItemClickResume_def)
  have b: "selectedItem (run [Click item, Settle (length (pendingFacts st)) (Rejected err)] st)
          = Some item
        \<and> modalContent (run [Click item, Settle (length (pendingFacts st)) (Rejected err)] st)
          = ''Could not retrieve information at this time.''
        \<and> \<not> isModalLoading (run [Click item, Settle (length (pendingFacts st)) (Rejected err)] st)
        \<and> (\<forall>j. id' j \<noteq> id' item \<longrightarrow>
              \<not> clickGuard j (run [Click item, Settle (length (pendingFacts st)) (Rejected err)] st))"
    if g: "\<not> clickGuard item st"
    by (simp add: handleItemClick_open [OF g] settle_rejected clickGuard_def)
  from a b show ?thesis by blast
qed

text \<open>Saturn is opened from the initial state and the call rejects.\<close>

theorem fetch_rejected_fallback_witness:
  "\<not> clickGuard saturn initApp
   \<and> selectedItem (run [Click saturn, Settle 0 (Rejected ''503'')] initApp) = Some saturn
   \<and> modalContent (run [Click saturn, Settle 0 (Rejected ''503'')] initApp)
       = ''Could not retrieve information at this time.''
   \<and> \<not> isModalLoading (run [Click saturn, Settle 0 (Rejected ''503'')] initApp)"
proof -
  have g: "\<not> clickGuard saturn initApp" by (simp add: clickGuard_def initApp_def)
  have p: "length (pendingFacts initApp) = 0" by (simp add: initApp_def)
  from fetch_rejected_fallback [of "''503''" initApp saturn initApp] g p show ?thesis
    by simp
qed

text \<open>
  C2. An item is opened, the modal is closed while the call is pending, any events
  other than a settling follow, and the call returns the fact \<open>r\<close>. Then no item is
  selected and nothing is loading, and \<open>modalContent\<close> is \<open>r\<close>: the result is written
  whether or not its item is still selected.
\<close>

theorem close_then_resolve_applies_result:
  assumes "\<not> clickGuard item st" and "\<forall>e\<in>set es. \<not> isSettle e"
  shows "selectedItem
           (run (Click item # Close # es @ [Settle (length (pendingFacts st)) (Fulfilled r)]) st) = None
     \<and> modalContent
           (run (Click item # Close # es @ [Settle (length (pendingFacts st)) (Fulfilled r)]) st) = r
     \<and> \<not> isModalLoading
           (run (Click item # Close # es @ [Settle (length (pendingFacts st)) (Fulfilled r)]) st)"
proof -
  let ?s2 = "closeModal (handleItemClick item st)"
  let ?s3 = "run es ?s2"
  note oc = open_then_close [OF assms(1)]
  from run_loading [OF oc(1) assms(2)] oc
  have l: "isModalLoading ?s3" and p: "pendingFacts ?s3 = pendingFacts st @ [title item]"
    and n: "selectedItem ?s3 = None"
    by simp_all
  have i: "length (pendingFacts st) < length (pendingFacts ?s3)" by (simp add: p)
  have "run (Click item # Close # es @ [Settle (length (pendingFacts st)) (Fulfilled r)]) st
          = settle (length (pendingFacts st)) (Fulfilled r) ?s3"
    by (simp add: run_append)
  then show ?thesis by (simp add: settle_fulfilled [OF i] n)
qed

text \<open>Earth is opened and closed, a pinch over Saturn follows, then the fact arrives.\<close>

theorem close_then_resolve_applies_result_witness:
  "\<not> clickGuard earth initApp
   \<and> \<not> isSettle (Frame (pinchSample True) (overCard ''saturn''))
   \<and> selectedItem (run [Click earth, Close, Frame (pinchSample True) (overCard ''saturn''),
        Settle 0 (Fulfilled ''blue'')] initApp) = None
   \<and> modalContent (run [Click earth, Close, Frame (pinchSample True) (overCard ''saturn''),
        Settle 0 (Fulfilled ''blue'')] initApp) = ''blue''"
proof -
  have g: "\<not> clickGuard earth initApp" by (simp add: clickGuard_def initApp_def)
  have e: "\<forall>e\<in>set [Frame (pinchSample True) (overCard ''saturn'')]. \<not> isSettle e" by simp
  have p: "length (pendingFacts initApp) = 0" by (simp add: initApp_def)
  from close_then_resolve_applies_result [OF g e, of "''blue''"] g p show ?thesis
    by simp
qed

text \<open>
  Earth is opened and closed, and the fact \<open>blue\<close> arrives: the content, empty after the
  close, becomes \<open>blue\<close>.
\<close>

theorem close_then_resolve_counterexample:
  "selectedItem (run [Click earth, Close] initApp) = None
   \<and> modalContent (run [Click earth, Close] initApp) = ''''
   \<and> pendingFacts (run [Click earth, Close] initApp) = [''Planet Earth'']
   \<and> modalContent (run [Click earth, Close, Settle 0 (Fulfilled ''blue'')] initApp) = ''blue''
   \<and> modalContent (run [Click earth, Close, Settle 0 (Fulfilled ''blue'')] initApp) \<noteq> ''''
   \<and> run [Click earth, Close, Settle 0 (Fulfilled ''blue'')] initApp \<noteq> run [Click earth, Close] initApp"
proof -
  have g: "\<not> clickGuard earth initApp" by (simp add: clickGuard_def initApp_def)
  have t: "title earth = ''Planet Earth''" by (simp add: earth_def INTERACTIVE_ITEMS_def)
  have a: "selectedItem (run [Click earth, Close] initApp) = None
   \<and> modalContent (run [Click earth, Close] initApp) = ''''
   \<and> pendingFacts (run [Click earth, Close] initApp) = [''Planet Earth'']"
    by (simp add: open_then_close [OF g] t) (simp add: initApp_def)
  have b: "modalContent (run [Click earth, Close, Settle 0 (Fulfilled ''blue'')] initApp) = ''blue''"
    by (simp add: settle_fulfilled open_then_close [OF g])
  from a b have "modalContent (run [Click earth, Close, Settle 0 (Fulfilled ''blue'')] initApp)
      \<noteq> modalContent (run [Click earth, Close] initApp)" by simp
  then have c: "run [Click earth, Close, Settle 0 (Fulfilled ''blue'')] initApp
      \<noteq> run [Click earth, Close] initApp" by metis
  from a b c show ?thesis by simp
qed

text \<open>
  C3. Item \<open>a\<close> is selected with its call pending at position \<open>i\<close>, item \<open>b\<close> is selected
  through the callback of a render \<open>rd\<close>, and the call for \<open>a\<close> returns the fact \<open>r\<close>. Then
  \<open>modalContent\<close> is \<open>r\<close> and nothing is marked loading, whatever is selected: the result
  is written with no check of the selection, which it leaves as it was. The selection
  of \<open>b\<close> is refused, and \<open>a\<close> stays selected, when the guard holds on the values of \<open>rd\<close>,
  as it does when \<open>rd\<close> is the render of the state with the call pending; when the guard
  does not hold on \<open>rd\<close>, a render from before \<open>a\<close> was opened, \<open>b\<close> is selected, its own
  call stays pending, and the fact of \<open>a\<close> is the content all the same.
\<close>

theorem first_result_applied_after_second_select:
  assumes "selectedItem s = Some a" and "isModalLoading s" and "i < length (pendingFacts s)"
  shows "clickGuard b s
     \<and> handleItemClickFrom s b s = s
     \<and> modalContent (settle i (Fulfilled r) (handleItemClickFrom rd b s)) = r
     \<and> \<not> isModalLoading (settle i (Fulfilled r) (handleItemClickFrom rd b s))
     \<and> selectedItem (settle i (Fulfilled r) (handleItemClickFrom rd b s))
         = (if clickGuard b rd then Some a else Some b)
     \<and> length (pendingFacts (settle i (Fulfilled r) (handleItemClickFrom rd b s)))
         = (if clickGuard b rd then length (pendingFacts s) - 1 else length (pendingFacts s))"
proof -
  have g: "clickGuard b s" using assms(2) by (simp add: clickGuard_def)
  then have n: "handleItemClickFrom s b s = s" by (simp add: handleItemClickFrom_cases)
  have i': "i < length (pendingFacts (handleItemClickFrom rd b s))"
    using assms(3) by (simp add: handleItemClickFrom_cases)
  have m: "modalContent (settle i (Fulfilled r) (handleItemClickFrom rd b s)) = r"
    and l: "\<not> isModalLoading (settle i (Fulfilled r) (handleItemClickFrom rd b s))"
    by (simp_all add: settle_fulfilled [OF i'])
  have sel0: "selectedItem (handleItemClickFrom rd b s) = (if clickGuard b rd then Some a else Some b)"
    using assms(1) by (simp add: handleItemClickFrom_cases)
  have len0: "length (pendingFacts (handleItemClickFrom rd b s))
         = (if clickGuard b rd then length (pendingFacts s) else Suc (length (pendingFacts s)))"
    by (simp add: handleItemClickFrom_cases)
  have sel: "selectedItem (settle i (Fulfilled r) (handleItemClickFrom rd b s))
         = (if clickGuard b rd then Some a else Some b)"
    using settle_loading [OF i', of "Fulfilled r"] sel0 by simp
  have "length (pendingFacts (settle i (Fulfilled r) (handleItemClickFrom rd b s)))
         = length (pendingFacts (handleItemClickFrom rd b s)) - 1"
    using i' by (simp add: settle_fulfilled [OF i'] min_def)
  with len0 have len: "length (pendingFacts (settle i (Fulfilled r) (handleItemClickFrom rd b s)))
         = (if clickGuard b rd then length (pendingFacts s) - 1 else length (pendingFacts s))"
    by simp
  from g n m l sel len show ?thesis by simp
qed

text \<open>
  A pinch over the Earth card opens Earth. A selection of Saturn through the callback of
  the render after that is refused, and Earth stays selected; one through the callback
  of the render the effect ran in, which shows nothing selected, makes Saturn the
  selected item. In both the fact of Earth becomes the content.
\<close>

theorem first_result_applied_after_second_select_witness:
  "selectedItem earthPinched = Some earth
   \<and> isModalLoading earthPinched
   \<and> pendingFacts earthPinched = [''Planet Earth'']
   \<and> clickGuard saturn earthPinched
   \<and> selectedItem (settle 0 (Fulfilled ''fact-A'') (handleItemClickFrom earthPinched saturn earthPinched))
        = Some earth
   \<and> modalContent (settle 0 (Fulfilled ''fact-A'') (handleItemClickFrom earthPinched saturn earthPinched))
        = ''fact-A''
   \<and> \<not> clickGuard saturn (onHandData (pinchSample True) initApp)
   \<and> selectedItem (settle 0 (Fulfilled ''fact-A'')
        (handleItemClickFrom (onHandData (pinchSample True) initApp) saturn earthPinched))
        = Some saturn
   \<and> modalContent (settle 0 (Fulfilled ''fact-A'')
        (handleItemClickFrom (onHandData (pinchSample True) initApp) saturn earthPinched))
        = ''fact-A''
   \<and> \<not> isModalLoading (settle 0 (Fulfilled ''fact-A'')
        (handleItemClickFrom (onHandData (pinchSample True) initApp) saturn earthPinched))
   \<and> pendingFacts (settle 0 (Fulfilled ''fact-A'')
        (handleItemClickFrom (onHandData (pinchSample True) initApp) saturn earthPinched))
        = [''Saturn'']"
proof -
  have s: "selectedItem earthPinched = Some earth" by (simp add: earthPinched_eq)
  have l: "isModalLoading earthPinched" by (simp add: earthPinched_eq)
  have p: "pendingFacts earthPinched = [''Planet Earth'']" by (simp add: earthPinched_eq)
  have i: "0 < length (pendingFacts earthPinched)" by (simp add: p)
  have g: "\<not> clickGuard saturn (onHandData (pinchSample True) initApp)"
    by (simp add: clickGuard_def onHandData_def initApp_def)
  have t: "title saturn = ''Saturn''" by (simp add: saturn_def INTERACTIVE_ITEMS_def)
  have q: "pendingFacts (settle 0 (Fulfilled ''fact-A'')
        (handleItemClickFrom (onHandData (pinchSample True) initApp) saturn earthPinched))
        = [''Saturn'']"
    by (simp add: handleItemClickFrom_cases g settle_fulfilled p t)
  note c = first_result_applied_after_second_select [OF s l i, of saturn "''fact-A''" earthPinched]
  note r = first_result_applied_after_second_select [OF s l i, of saturn "''fact-A''"
      "onHandData (pinchSample True) initApp"]
  from c have c1: "clickGuard saturn earthPinched" by blast
  from c c1 have c2: "selectedItem (settle 0 (Fulfilled ''fact-A'')
      (handleItemClickFrom earthPinched saturn earthPinched)) = Some earth"
    and c3: "modalContent (settle 0 (Fulfilled ''fact-A'')
      (handleItemClickFrom earthPinched saturn earthPinched)) = ''fact-A''"
    by auto
  from r g have r1: "selectedItem (settle 0 (Fulfilled ''fact-A'')
        (handleItemClickFrom (onHandData (pinchSample True) initApp) saturn earthPinched)) = Some saturn"
    and r2: "modalContent (settle 0 (Fulfilled ''fact-A'')
        (handleItemClickFrom (onHandData (pinchSample True) initApp) saturn earthPinched)) = ''fact-A''"
    and r3: "\<not> isModalLoading (settle 0 (Fulfilled ''fact-A'')
        (handleItemClickFrom (onHandData (pinchSample True) initApp) saturn earthPinched))"
    by auto
  from s l p c1 c2 c3 g r1 r2 r3 q show ?thesis by blast
qed

text \<open>
  With Earth as A and Saturn as B, both selected by pointer clicks: the content is
  \<open>fact-A\<close> in the end, and the selected item is not Saturn.
\<close>

theorem select_b_before_a_resolves_counterexample:
  "id' earth \<noteq> id' saturn
   \<and> modalContent (run [Click earth, Click saturn, Settle 0 (Fulfilled ''fact-A'')] initApp)
       = ''fact-A''
   \<and> selectedItem (run [Click earth, Click saturn, Settle 0 (Fulfilled ''fact-A'')] initApp)
       \<noteq> Some saturn"
proof -
  have g: "\<not> clickGuard earth initApp" by (simp add: clickGuard_def initApp_def)
  have l: "isModalLoading (handleItemClick earth initApp)"
    by (simp add: handleItemClick_open [OF g])
  have n: "handleItemClick saturn (handleItemClick earth initApp) = handleItemClick earth initApp"
    using l by (simp add: handleItemClick_noop clickGuard_def)
  have i: "0 < length (pendingFacts (handleItemClick earth initApp))"
    by (simp add: handleItemClick_open [OF g])
  have d: "id' earth \<noteq> id' saturn" by (simp add: earth_def saturn_def INTERACTIVE_ITEMS_def)
  then have d': "earth \<noteq> saturn" by metis
  show ?thesis
    by (simp add: n settle_fulfilled [OF i] d) (simp add: handleItemClick_open [OF g] d')
qed

section \<open>Closing the modal\<close>

text \<open>
  C9. Closing twice in a row gives the same state as closing once: both clear
  \<open>selectedItem\<close> and \<open>modalContent\<close>, whatever the state was.
\<close>

theorem closeModal_idempotent:
  "closeModal (closeModal st) = closeModal st
   \<and> selectedItem (closeModal st) = None \<and> modalContent (closeModal st) = ''''"
  by (simp add: closeModal_def)

text \<open>
  C10. \<open>closeModal\<close> leaves \<open>isModalLoading\<close> as it is. When the modal is closed while a
  call is pending and the flag is set, the flag stays set through every later event
  that is not a settling, with no item selected; when the call settles, with a fact or
  a rejection, the flag is cleared, and still no item is selected.
\<close>

theorem close_keeps_loading:
  "isModalLoading (closeModal st) = isModalLoading st
   \<and> (isModalLoading st \<longrightarrow> (\<forall>e\<in>set es. \<not> isSettle e) \<longrightarrow> i < length (pendingFacts st) \<longrightarrow>
        isModalLoading (run (Close # es) st)
        \<and> selectedItem (run (Close # es) st) = None
        \<and> \<not> isModalLoading (run (Close # es @ [Settle i r]) st)
        \<and> selectedItem (run (Close # es @ [Settle i r]) st) = None)"
proof -
  have a: "isModalLoading (closeModal st) = isModalLoading st" by (simp add: closeModal_def)
  have b: "isModalLoading (run (Close # es) st)
        \<and> selectedItem (run (Close # es) st) = None
        \<and> \<not> isModalLoading (run (Close # es @ [Settle i r]) st)
        \<and> selectedItem (run (Close # es @ [Settle i r]) st) = None"
    if l: "isModalLoading st" and e: "\<forall>e\<in>set es. \<not> isSettle e" and i: "i < length (pendingFacts st)"
  proof -
    let ?s = "run es (closeModal st)"
    from l have l': "isModalLoading (closeModal st)" by (simp add: a)
    from run_loading [OF l' e]
    have s: "isModalLoading ?s" "pendingFacts ?s = pendingFacts st" "selectedItem ?s = None"
      by (simp_all add: closeModal_def)
    from i s have i': "i < length (pendingFacts ?s)" by simp
    from settle_loading [OF i', of r] s show ?thesis by (simp add: run_append)
  qed
  from a b show ?thesis by blast
qed

text \<open>
  Earth is opened; the modal is closed, a pinch over Saturn and a click on Saturn
  follow, and the call for Earth rejects.
\<close>

theorem close_keeps_loading_witness:
  "isModalLoading (handleItemClick earth initApp)
   \<and> \<not> isSettle (Frame (pinchSample True) (overCard ''saturn'')) \<and> \<not> isSettle (Click saturn)
   \<and> (0::nat) < length (pendingFacts (handleItemClick earth initApp))
   \<and> isModalLoading (run [Close, Frame (pinchSample True) (overCard ''saturn''), Click saturn]
        (handleItemClick earth initApp))
   \<and> selectedItem (run [Close, Frame (pinchSample True) (overCard ''saturn''), Click saturn]
        (handleItemClick earth initApp)) = None
   \<and> \<not> isModalLoading (run [Close, Frame (pinchSample True) (overCard ''saturn''), Click saturn,
        Settle 0 (Rejected ''503'')] (handleItemClick earth initApp))"
proof -
  have g: "\<not> clickGuard earth initApp" by (simp add: clickGuard_def initApp_def)
  have l: "isModalLoading (handleItemClick earth initApp)"
    by (simp add: handleItemClick_open [OF g])
  have e: "\<forall>e\<in>set [Frame (pinchSample True) (overCard ''saturn''), Click saturn]. \<not> isSettle e"
    by simp
  have i: "(0::nat) < length (pendingFacts (handleItemClick earth initApp))"
    by (simp add: handleItemClick_open [OF g])
  from close_keeps_loading [of "handleItemClick earth initApp"
      "[Frame (pinchSample True) (overCard ''saturn''), Click saturn]" 0 "Rejected ''503''"] l e i
  show ?thesis by simp
qed

end
